theory Spec2Isabelle
  imports Complex_Main "HOL-Library.Sublist"
begin

section \<open>The WhatsApp bot: summary engine, message pipeline, rate limiter\<close>

text \<open>
  A shallow embedding of \<^verbatim>\<open>utils/summarizer.py\<close>, \<^verbatim>\<open>handlers/message.py\<close>,
  \<^verbatim>\<open>handlers/notification.py\<close> and \<^verbatim>\<open>utils/rate_limiter.py\<close>.

  Conventions.
  \<^item> A Python \<^verbatim>\<open>str\<close> is a \<open>string\<close>; a \<open>char\<close> stands for the code point of the same
    number (U+0000 to U+00FF). \<^verbatim>\<open>sub in s\<close> on strings is \<open>sublist sub s\<close>.
  \<^item> \<^verbatim>\<open>time.time()\<close> yields a float, taken as the \<open>real\<close> it denotes; the one float
    operation of the code, the subtraction in the rate limiter, is a parameter.
  \<^item> A raised \<^verbatim>\<open>Exception\<close> is a value \<open>Exn m\<close>, with \<open>m\<close> what \<^verbatim>\<open>str(e)\<close> gives.
  \<^item> The three external collaborators (the Groq completion behind
    \<^verbatim>\<open>get_llm_response\<close>, the SMTP session behind \<^verbatim>\<open>send_email_alert\<close>, the system
    clock) are oracles collected in an \<open>env\<close>; what the program did to them is logged
    in the \<open>world\<close>, which is passed through every function and returned updated.
  \<^item> The MongoDB collection \<^verbatim>\<open>conversation_summaries\<close> is a map from \<^verbatim>\<open>user_id\<close> to its
    document; each \<^verbatim>\<open>find_one\<close>, \<^verbatim>\<open>insert_one\<close>, \<^verbatim>\<open>update_one\<close> is logged. The storage
    calls themselves are taken to succeed.
  \<^item> Calls to \<^verbatim>\<open>logger\<close> have no effect on any value computed and are left out.
\<close>

subsection \<open>Data model\<close>

datatype exn = Exn string

fun str_exn :: "exn \<Rightarrow> string" where
  "str_exn (Exn m) = m"

text \<open>
  A document of the collection. A field is \<open>None\<close> when the document does not have it:
  the code reads every field with \<^verbatim>\<open>record.get(field, default)\<close>. The same type serves
  for the dictionary given to \<^verbatim>\<open>$set\<close>, where \<open>None\<close> means that the key is not in it.
\<close>

record doc =
  summary :: "string option"
  unsummarized_count :: "int option"
  buffer :: "string option"
  last_updated :: "real option"

datatype storage_op = FindOne string | InsertOne string | UpdateOne string

record world =
  conversation_summaries :: "string \<rightharpoonup> doc"
  storage_ops :: "storage_op list"
  llm_prompts :: "string list"
  alerts :: "(string \<times> string) list"
  emails_sent :: "(string \<times> string) list"
  clock_reads :: nat

text \<open>
  The oracles. \<open>llm e k p\<close> is what the generation call number \<open>k\<close> (counted from 0)
  does on prompt \<open>p\<close>: raise (\<open>Inl\<close>) or return the cleaned text (\<open>Inr\<close>).
  \<open>smtp e k\<close> tells whether the SMTP session of alert number \<open>k\<close> goes through.
  \<open>clock e k\<close> is the value of the \<open>k\<close>-th read of \<^verbatim>\<open>time.time()\<close>.
\<close>

record env =
  llm :: "nat \<Rightarrow> string \<Rightarrow> exn + string"
  smtp :: "nat \<Rightarrow> bool"
  clock :: "nat \<Rightarrow> real"

subsection \<open>Storage, generation, clock\<close>

definition find_one :: "world \<Rightarrow> string \<Rightarrow> doc option \<times> world" where
  "find_one w user_id =
     (conversation_summaries w user_id,
      w\<lparr>storage_ops := storage_ops w @ [FindOne user_id]\<rparr>)"

definition insert_one :: "world \<Rightarrow> string \<Rightarrow> doc \<Rightarrow> world" where
  "insert_one w user_id d =
     w\<lparr>conversation_summaries := (conversation_summaries w)(user_id \<mapsto> d),
       storage_ops := storage_ops w @ [InsertOne user_id]\<rparr>"

definition set_fields :: "doc \<Rightarrow> doc \<Rightarrow> doc" where
  "set_fields d u =
     d\<lparr>summary := (case summary u of None \<Rightarrow> summary d | Some v \<Rightarrow> Some v),
       unsummarized_count :=
         (case unsummarized_count u of None \<Rightarrow> unsummarized_count d | Some v \<Rightarrow> Some v),
       buffer := (case buffer u of None \<Rightarrow> buffer d | Some v \<Rightarrow> Some v),
       last_updated := (case last_updated u of None \<Rightarrow> last_updated d | Some v \<Rightarrow> Some v)\<rparr>"

definition update_one :: "world \<Rightarrow> string \<Rightarrow> doc \<Rightarrow> world" where
  "update_one w user_id update_fields =
     w\<lparr>conversation_summaries :=
         (case conversation_summaries w user_id of
            None \<Rightarrow> conversation_summaries w
          | Some d \<Rightarrow> (conversation_summaries w)(user_id \<mapsto> set_fields d update_fields)),
       storage_ops := storage_ops w @ [UpdateOne user_id]\<rparr>"

definition get_llm_response :: "env \<Rightarrow> world \<Rightarrow> string \<Rightarrow> (exn + string) \<times> world" where
  "get_llm_response e w prompt =
     (llm e (length (llm_prompts w)) prompt,
      w\<lparr>llm_prompts := llm_prompts w @ [prompt]\<rparr>)"

definition time_time :: "env \<Rightarrow> world \<Rightarrow> real \<times> world" where
  "time_time e w = (clock e (clock_reads w), w\<lparr>clock_reads := Suc (clock_reads w)\<rparr>)"

subsection \<open>\<^verbatim>\<open>utils/summarizer.py\<close>\<close>

definition UPDATE_THRESHOLD :: int where
  "UPDATE_THRESHOLD = 3"

definition get_str :: "string option \<Rightarrow> string \<Rightarrow> string" where
  "get_str field dflt = (case field of None \<Rightarrow> dflt | Some v \<Rightarrow> v)"

definition get_int :: "int option \<Rightarrow> int \<Rightarrow> int" where
  "get_int field dflt = (case field of None \<Rightarrow> dflt | Some v \<Rightarrow> v)"

definition new_record :: doc where
  "new_record = \<lparr>summary = Some '''', unsummarized_count = Some 0, buffer = Some '''',
                 last_updated = None\<rparr>"

definition new_entry :: "string \<Rightarrow> string \<Rightarrow> string" where
  "new_entry role new_message = role @ '': '' @ new_message @ [CHR 0x0A]"

definition summary_prompt :: "string \<Rightarrow> string \<Rightarrow> string" where
  "summary_prompt current_summary updated_buffer =
     ''You are tasked with summarizing the conversation between a user and a bot. '' @
     ''Below is the current summary and the new interactions since the last summary update. '' @
     ''Generate an updated, concise summary that captures all key points and changes in context.'' @
     [CHR 0x0A] @
     ''Current Summary: '' @ current_summary @ [CHR 0x0A] @
     ''New Interactions: '' @ updated_buffer @ [CHR 0x0A] @
     ''Output only the new summary text.''"

definition update_summary ::
  "env \<Rightarrow> world \<Rightarrow> string \<Rightarrow> string \<Rightarrow> string \<Rightarrow> string \<times> world" where
  "update_summary e w user_id new_message role =
     (let (found, w1) = find_one w user_id;
          (record, w2) =
            (case found of
               None \<Rightarrow> (new_record, insert_one w1 user_id new_record)
             | Some r \<Rightarrow> (r, w1));
          updated_buffer = get_str (buffer record) '''' @ new_entry role new_message;
          stored_count = get_int (unsummarized_count record) 0;
          new_count = (if role = ''User'' then stored_count + 1 else stored_count);
          (now, w3) = time_time e w2;
          update_fields =
            \<lparr>summary = None, unsummarized_count = Some new_count,
             buffer = Some updated_buffer, last_updated = Some now\<rparr>
      in if new_count \<ge> UPDATE_THRESHOLD then
           (let current_summary = get_str (summary record) '''';
                prompt = summary_prompt current_summary updated_buffer;
                (result, w4) = get_llm_response e w3 prompt
            in case result of
                 Inr new_summary \<Rightarrow>
                   (new_summary,
                    update_one w4 user_id
                      (update_fields\<lparr>summary := Some new_summary,
                                     unsummarized_count := Some 0,
                                     buffer := Some ''''\<rparr>))
               | Inl ex \<Rightarrow> (current_summary, update_one w4 user_id update_fields))
         else (get_str (summary record) '''', update_one w3 user_id update_fields))"

text \<open>What storage holds for a user.\<close>

definition stored :: "world \<Rightarrow> string \<Rightarrow> doc option" where
  "stored w user_id = conversation_summaries w user_id"

subsection \<open>\<^verbatim>\<open>handlers/notification.py\<close>\<close>

text \<open>
  \<^verbatim>\<open>send_email_alert\<close> wraps the whole SMTP session in \<^verbatim>\<open>try\<close>/\<^verbatim>\<open>except Exception\<close>
  and returns \<^verbatim>\<open>None\<close> either way. \<open>alerts\<close> logs every invocation, \<open>emails_sent\<close>
  those whose session went through.
\<close>

definition send_email_alert :: "env \<Rightarrow> world \<Rightarrow> string \<Rightarrow> string \<Rightarrow> world" where
  "send_email_alert e w subject message =
     (let w1 = w\<lparr>alerts := alerts w @ [(subject, message)]\<rparr>
      in if smtp e (length (alerts w))
         then w1\<lparr>emails_sent := emails_sent w @ [(subject, message)]\<rparr>
         else w1)"

subsection \<open>\<^verbatim>\<open>handlers/message.py\<close>\<close>

text \<open>
  \<^verbatim>\<open>str.strip()\<close> removes the characters for which \<^verbatim>\<open>str.isspace\<close> holds from both
  ends; \<^verbatim>\<open>str.lower()\<close> maps A to Z and the capital letters of Latin-1 (U+00C0 to
  U+00DE without the multiplication sign U+00D7) 32 code points up.
\<close>

definition isspace :: "char \<Rightarrow> bool" where
  "isspace c = (of_char c \<in> {9, 10, 11, 12, 13, 28, 29, 30, 31, 32, 133, 160 :: nat})"

definition strip :: "string \<Rightarrow> string" where
  "strip s = rev (dropWhile isspace (rev (dropWhile isspace s)))"

definition lower_char :: "char \<Rightarrow> char" where
  "lower_char c =
     (let n = of_char c :: nat
      in if (65 \<le> n \<and> n \<le> 90) \<or> (192 \<le> n \<and> n \<le> 222 \<and> n \<noteq> 215)
         then char_of (n + 32) else c)"

definition lower :: "string \<Rightarrow> string" where
  "lower s = map lower_char s"

definition preprocess_message :: "string option \<Rightarrow> string" where
  "preprocess_message message_text =
     (case message_text of None \<Rightarrow> '''' | Some s \<Rightarrow> strip s)"

definition media_keywords :: "string list" where
  "media_keywords = [''video'', ''photo'', ''voice'']"

definition check_media_request :: "string \<Rightarrow> bool" where
  "check_media_request message_text =
     list_ex (\<lambda>keyword. sublist keyword (lower message_text)) media_keywords"

definition fallback_reply :: string where
  "fallback_reply = ''I didn't catch that. Could you please repeat?''"

definition media_alert :: "string \<Rightarrow> string \<Rightarrow> string" where
  "media_alert user_id processed_text =
     ''User '' @ user_id @ '' requested media: '' @ processed_text"

definition reply_prompt :: "string \<Rightarrow> string \<Rightarrow> string" where
  "reply_prompt current_summary processed_text =
     ''You are engaged in a playful conversation with the user. '' @
     ''Use the following conversation context to generate a natural and engaging reply.'' @
     [CHR 0x0A, CHR 0x0A] @
     ''Conversation Summary:'' @ [CHR 0x0A] @
     current_summary @ [CHR 0x0A, CHR 0x0A] @
     ''User's Message:'' @ [CHR 0x0A] @
     processed_text @ [CHR 0x0A, CHR 0x0A] @
     ''Respond naturally while maintaining the tone of the conversation.''"

definition error_message :: "string \<Rightarrow> string \<Rightarrow> exn \<Rightarrow> string" where
  "error_message user_id prompt ex =
     ''Error for user '' @ user_id @ '' with prompt: '' @ prompt @ [CHR 0x0A] @
     ''Error: '' @ str_exn ex"

text \<open>
  Steps 2 to 4 of \<^verbatim>\<open>process_message\<close>: the media alert, the append of the user's turn,
  the prompt. The result is the prompt and the world in which Step 5 makes the
  reply-generation call.
\<close>

definition steps_2_to_4 :: "env \<Rightarrow> world \<Rightarrow> string \<Rightarrow> string \<Rightarrow> string \<times> world" where
  "steps_2_to_4 e w processed_text user_id =
     (let w1 = (if check_media_request processed_text
                then send_email_alert e w ''Media Request Detected''
                       (media_alert user_id processed_text)
                else w);
          (current_summary, w2) = update_summary e w1 user_id processed_text ''User''
      in (reply_prompt current_summary processed_text, w2))"

definition process_message ::
  "env \<Rightarrow> world \<Rightarrow> string option \<Rightarrow> string \<Rightarrow> (exn + string) \<times> world" where
  "process_message e w message_text user_id =
     (case message_text of
        None \<Rightarrow> (Inr fallback_reply, w)
      | Some text \<Rightarrow>
          (let processed_text = preprocess_message (Some text)
           in if processed_text = '''' then (Inr fallback_reply, w)
              else
                (let (prompt, w2) = steps_2_to_4 e w processed_text user_id;
                     (result, w3) = get_llm_response e w2 prompt
                 in case result of
                      Inl ex \<Rightarrow>
                        (Inl ex,
                         send_email_alert e w3 ''LLM API Failure''
                           (error_message user_id prompt ex))
                    | Inr response \<Rightarrow>
                        (Inr response,
                         snd (update_summary e w3 user_id response ''Bot'')))))"

subsection \<open>\<^verbatim>\<open>utils/rate_limiter.py\<close>\<close>

text \<open>
  \<^verbatim>\<open>user_message_timestamps\<close> is the module's dictionary, empty when the module is loaded.
  \<open>limit\<close> is \<^verbatim>\<open>settings.DEFAULT_RATE_LIMIT_PER_HOUR\<close>, an \<^verbatim>\<open>int\<close> read from the
  environment (30 when the variable is not set), and \<open>current_time\<close> is what
  \<^verbatim>\<open>time.time()\<close> returned.

  The times are binary64 floats, each taken as the real number it denotes. The
  difference \<^verbatim>\<open>current_time - timestamp\<close> is the interpreter's float subtraction, which
  rounds: it is the parameter \<open>float_sub\<close>, and nothing is assumed about it (the exact
  difference of the two reals is one instance, the rounded one another). The comparison
  of the result with the integer 3600 is exact.
\<close>

type_synonym timestamp_store = "string \<rightharpoonup> real list"

definition is_rate_limited ::
  "(real \<Rightarrow> real \<Rightarrow> real) \<Rightarrow> int \<Rightarrow> real \<Rightarrow> timestamp_store \<Rightarrow> string
   \<Rightarrow> bool \<times> timestamp_store" where
  "is_rate_limited float_sub limit current_time user_message_timestamps user_id =
     (let timestamps =
            (case user_message_timestamps user_id of None \<Rightarrow> [] | Some ts \<Rightarrow> ts);
          timestamps =
            filter (\<lambda>timestamp. float_sub current_time timestamp < 3600) timestamps;
          m = user_message_timestamps(user_id \<mapsto> timestamps)
      in if int (length timestamps) \<ge> limit then (True, m)
         else (False, m(user_id \<mapsto> timestamps @ [current_time])))"

subsection \<open>Notions used in the statements\<close>

text \<open>
  What the reply-generation call of Step 5 returns or raises for a message that reaches
  it: the call is made with the prompt and in the world that Steps 2 to 4 leave.
\<close>

definition reply_call :: "env \<Rightarrow> world \<Rightarrow> string \<Rightarrow> string \<Rightarrow> exn + string" where
  "reply_call e w text user_id =
     (let (prompt, w2) = steps_2_to_4 e w (strip text) user_id
      in fst (get_llm_response e w2 prompt))"

text \<open>The alerts of a world that carry a given subject, in order.\<close>

definition alerts_with :: "string \<Rightarrow> world \<Rightarrow> (string \<times> string) list" where
  "alerts_with subject w = filter (\<lambda>a. fst a = subject) (alerts w)"

text \<open>
  A sequence of calls of \<^verbatim>\<open>is_rate_limited\<close>, each with its user and the time the clock
  shows: the answers in order, and the dictionary at the end.
\<close>

fun run_calls ::
  "(real \<Rightarrow> real \<Rightarrow> real) \<Rightarrow> int \<Rightarrow> timestamp_store \<Rightarrow> (string \<times> real) list
   \<Rightarrow> bool list \<times> timestamp_store" where
  "run_calls float_sub limit m [] = ([], m)"
| "run_calls float_sub limit m ((user_id, t) # calls) =
     (let (r, m1) = is_rate_limited float_sub limit t m user_id;
          (rs, m2) = run_calls float_sub limit m1 calls
      in (r # rs, m2))"

definition recorded :: "timestamp_store \<Rightarrow> string \<Rightarrow> real list" where
  "recorded m user_id = (case m user_id of None \<Rightarrow> [] | Some ts \<Rightarrow> ts)"

text \<open>
  Times that lie within one window, as the code measures it: for no time \<open>t'\<close> of the
  list and no earlier one \<open>t\<close> does the code's own subtraction \<^verbatim>\<open>t' - t\<close> reach 3600
  (the clock need not be monotonic). A time \<open>t'\<close> is past the window of a recorded
  \<open>s\<close> when that subtraction gives 3600 or more.
\<close>

fun within_window :: "(real \<Rightarrow> real \<Rightarrow> real) \<Rightarrow> real list \<Rightarrow> bool" where
  "within_window float_sub [] = True"
| "within_window float_sub (t # ts) =
     (list_all (\<lambda>t'. float_sub t' t < 3600) ts \<and> within_window float_sub ts)"

text \<open>
  The two halves of \<^verbatim>\<open>update_summary\<close> between which another call can run.
  \<open>read_phase\<close> is the function up to the line before \<^verbatim>\<open>collection.update_one\<close>: the
  \<^verbatim>\<open>find_one\<close> (with the \<^verbatim>\<open>insert_one\<close> of a new record), the fields computed from what
  was read, the clock read and the compaction attempt; it yields the value to return and
  \<^verbatim>\<open>update_fields\<close>, both local to the call. \<open>write_phase\<close> is the \<^verbatim>\<open>update_one\<close>.
  The code holds no lock between the two and the update is unconditional.
\<close>

definition read_phase ::
  "env \<Rightarrow> world \<Rightarrow> string \<Rightarrow> string \<Rightarrow> string \<Rightarrow> (string \<times> doc) \<times> world" where
  "read_phase e w user_id new_message role =
     (let (found, w1) = find_one w user_id;
          (record, w2) =
            (case found of
               None \<Rightarrow> (new_record, insert_one w1 user_id new_record)
             | Some r \<Rightarrow> (r, w1));
          updated_buffer = get_str (buffer record) '''' @ new_entry role new_message;
          stored_count = get_int (unsummarized_count record) 0;
          new_count = (if role = ''User'' then stored_count + 1 else stored_count);
          (now, w3) = time_time e w2;
          update_fields =
            \<lparr>summary = None, unsummarized_count = Some new_count,
             buffer = Some updated_buffer, last_updated = Some now\<rparr>
      in if new_count \<ge> UPDATE_THRESHOLD then
           (let current_summary = get_str (summary record) '''';
                prompt = summary_prompt current_summary updated_buffer;
                (result, w4) = get_llm_response e w3 prompt
            in case result of
                 Inr new_summary \<Rightarrow>
                   ((new_summary,
                     update_fields\<lparr>summary := Some new_summary,
                                    unsummarized_count := Some 0,
                                    buffer := Some ''''\<rparr>), w4)
               | Inl ex \<Rightarrow> ((current_summary, update_fields), w4))
         else ((get_str (summary record) '''', update_fields), w3))"

definition write_phase :: "world \<Rightarrow> string \<Rightarrow> doc \<Rightarrow> world" where
  "write_phase w user_id update_fields = update_one w user_id update_fields"

text \<open>
  Two calls for the same user. \<open>serial\<close> runs them one after the other. \<open>interleaved\<close>
  is the schedule in which both calls read before either writes: A reads, B reads,
  A writes, B writes. Each storage operation is atomic, and the world (storage and logs)
  is shared; the fields to write are each call's own.
\<close>

definition serial ::
  "env \<Rightarrow> world \<Rightarrow> string \<Rightarrow> string \<Rightarrow> string \<Rightarrow> string \<Rightarrow> string \<Rightarrow> world" where
  "serial e w user_id text_a role_a text_b role_b =
     snd (update_summary e (snd (update_summary e w user_id text_a role_a))
            user_id text_b role_b)"

definition interleaved ::
  "env \<Rightarrow> world \<Rightarrow> string \<Rightarrow> string \<Rightarrow> string \<Rightarrow> string \<Rightarrow> string \<Rightarrow> world" where
  "interleaved e w user_id text_a role_a text_b role_b =
     (let ((ret_a, fields_a), w1) = read_phase e w user_id text_a role_a;
          ((ret_b, fields_b), w2) = read_phase e w1 user_id text_b role_b;
          w3 = write_phase w2 user_id fields_a
      in write_phase w3 user_id fields_b)"

text \<open>The record a call works on: the stored one, or the new record of a first call.\<close>

definition base_record :: "world \<Rightarrow> string \<Rightarrow> doc" where
  "base_record w user_id =
     (case conversation_summaries w user_id of None \<Rightarrow> new_record | Some r \<Rightarrow> r)"

definition turn_count :: "string \<Rightarrow> int" where
  "turn_count role = (if role = ''User'' then 1 else 0)"

subsection \<open>Concrete scenarios\<close>

text \<open>
  A generation service that answers, and one that is down; a user \<open>u\<close> with two user
  turns pending.
\<close>

definition env_up :: env where
  "env_up = \<lparr>llm = (\<lambda>k p. Inr ''Compact-Summary-X''), smtp = (\<lambda>k. True),
             clock = (\<lambda>k. 1000)\<rparr>"

definition env_down :: env where
  "env_down = \<lparr>llm = (\<lambda>k p. Inl (Exn ''timeout'')), smtp = (\<lambda>k. False),
               clock = (\<lambda>k. 1000)\<rparr>"

definition doc_two :: doc where
  "doc_two = \<lparr>summary = Some ''likes tea'', unsummarized_count = Some 2,
              buffer = Some (new_entry ''User'' ''a'' @ new_entry ''Bot'' ''b'' @
                             new_entry ''User'' ''c'' @ new_entry ''Bot'' ''d''),
              last_updated = Some 900\<rparr>"

definition world_two :: world where
  "world_two = \<lparr>conversation_summaries = [''u'' \<mapsto> doc_two], storage_ops = [],
                llm_prompts = [], alerts = [], emails_sent = [], clock_reads = 0\<rparr>"

text \<open>A world in which nobody has written yet.\<close>

definition world_empty :: world where
  "world_empty = \<lparr>conversation_summaries = Map.empty, storage_ops = [],
                  llm_prompts = [], alerts = [], emails_sent = [], clock_reads = 0\<rparr>"

text \<open>
  The subtraction of the rate limiter scenario. Its times are whole numbers of seconds
  far below \<open>2 ^ 53\<close>, on which binary64 subtraction is exact.
\<close>

definition whole_seconds_sub :: "real \<Rightarrow> real \<Rightarrow> real" where
  "whole_seconds_sub a b = a - b"

section \<open>Properties\<close>

lemmas storage_defs = find_one_def insert_one_def update_one_def set_fields_def
  get_llm_response_def time_time_def get_str_def get_int_def

subsection \<open>The summary engine\<close>

text \<open>
  Claim C1. For a user whose stored \<^verbatim>\<open>unsummarized_count\<close> is \<^verbatim>\<open>UPDATE_THRESHOLD - 1\<close>,
  \<^verbatim>\<open>update_summary(user_id, text, "User")\<close> makes exactly one generation call (the log of
  prompts grows by one entry, the summary prompt); and if that call returns \<open>s\<close>, the
  function returns \<open>s\<close> and the stored document has \<^verbatim>\<open>summary\<close> \<open>s\<close>, an empty
  \<^verbatim>\<open>buffer\<close> and \<^verbatim>\<open>unsummarized_count\<close> 0.
\<close>

theorem threshold_turn_compacts:
  "stored w user_id = Some d \<Longrightarrow>
   unsummarized_count d = Some (UPDATE_THRESHOLD - 1) \<Longrightarrow>
   llm_prompts (snd (update_summary e w user_id text ''User'')) =
     llm_prompts w @ [summary_prompt (get_str (summary d) '''')
                        (get_str (buffer d) '''' @ new_entry ''User'' text)] \<and>
   (llm e (length (llm_prompts w))
      (summary_prompt (get_str (summary d) '''')
         (get_str (buffer d) '''' @ new_entry ''User'' text)) = Inr s \<longrightarrow>
    fst (update_summary e w user_id text ''User'') = s \<and>
    stored (snd (update_summary e w user_id text ''User'')) user_id =
      Some (d\<lparr>summary := Some s, unsummarized_count := Some 0, buffer := Some '''',
              last_updated := Some (clock e (clock_reads w))\<rparr>))"
  by (auto simp: update_summary_def stored_def UPDATE_THRESHOLD_def storage_defs Let_def
      split: sum.splits)

theorem threshold_turn_compacts_witness:
  "stored world_two ''u'' = Some doc_two \<and>
   unsummarized_count doc_two = Some (UPDATE_THRESHOLD - 1) \<and>
   llm env_up (length (llm_prompts world_two))
     (summary_prompt (get_str (summary doc_two) '''')
        (get_str (buffer doc_two) '''' @ new_entry ''User'' ''hi'')) = Inr ''Compact-Summary-X'' \<and>
   length (llm_prompts (snd (update_summary env_up world_two ''u'' ''hi'' ''User''))) = 1 \<and>
   fst (update_summary env_up world_two ''u'' ''hi'' ''User'') = ''Compact-Summary-X'' \<and>
   stored (snd (update_summary env_up world_two ''u'' ''hi'' ''User'')) ''u'' =
     Some (doc_two\<lparr>summary := Some ''Compact-Summary-X'', unsummarized_count := Some 0,
                    buffer := Some '''', last_updated := Some 1000\<rparr>)"
proof -
  have h1: "stored world_two ''u'' = Some doc_two"
    by (simp add: stored_def world_two_def)
  have h2: "unsummarized_count doc_two = Some (UPDATE_THRESHOLD - 1)"
    by (simp add: doc_two_def UPDATE_THRESHOLD_def)
  have h3: "llm env_up k p = Inr ''Compact-Summary-X''" for k p
    by (simp add: env_up_def)
  have c: "clock env_up (clock_reads world_two) = 1000"
    by (simp add: env_up_def)
  have l: "llm_prompts world_two = []"
    by (simp add: world_two_def)
  show ?thesis
    using threshold_turn_compacts [OF h1 h2, of env_up "''hi''" "''Compact-Summary-X''"]
    by (simp add: h1 h2 h3 c l)
qed

subsubsection \<open>When compaction is attempted, and what a failed attempt leaves\<close>

text \<open>
  A call that adds one prompt to the log found a document for the user and reached the
  threshold with it; the prompt is the summary prompt over the appended buffer.
\<close>

lemma update_summary_calls:
  assumes "llm_prompts (snd (update_summary e w u m r)) = llm_prompts w @ [p]"
  shows "\<exists>d. stored w u = Some d \<and>
       p = summary_prompt (get_str (summary d) '''') (get_str (buffer d) '''' @ new_entry r m) \<and>
       UPDATE_THRESHOLD \<le> get_int (unsummarized_count d) 0 + (if r = ''User'' then 1 else 0)"
proof (cases "conversation_summaries w u")
  case None
  with assms show ?thesis
    by (simp add: update_summary_def storage_defs new_record_def UPDATE_THRESHOLD_def Let_def
        split: if_splits)
next
  case (Some d)
  with assms show ?thesis
    by (auto simp: update_summary_def stored_def storage_defs Let_def
        split: sum.splits if_splits)
qed

lemma update_summary_attempts:
  assumes "stored w u = Some d"
    and "UPDATE_THRESHOLD \<le> get_int (unsummarized_count d) 0 + (if r = ''User'' then 1 else 0)"
  shows "llm_prompts (snd (update_summary e w u m r)) =
     llm_prompts w @
       [summary_prompt (get_str (summary d) '''') (get_str (buffer d) '''' @ new_entry r m)]"
  using assms
  by (auto simp: update_summary_def stored_def storage_defs Let_def split: sum.splits)

lemma update_summary_failed:
  assumes "stored w u = Some d"
    and "UPDATE_THRESHOLD \<le> get_int (unsummarized_count d) 0 + (if r = ''User'' then 1 else 0)"
    and "llm e (length (llm_prompts w))
           (summary_prompt (get_str (summary d) '''') (get_str (buffer d) '''' @ new_entry r m))
         = Inl ex"
  shows "update_summary e w u m r =
     (get_str (summary d) '''',
      w\<lparr>conversation_summaries := (conversation_summaries w)(u \<mapsto>
           d\<lparr>unsummarized_count :=
                 Some (get_int (unsummarized_count d) 0 + (if r = ''User'' then 1 else 0)),
             buffer := Some (get_str (buffer d) '''' @ new_entry r m),
             last_updated := Some (clock e (clock_reads w))\<rparr>),
        storage_ops := storage_ops w @ [FindOne u, UpdateOne u],
        llm_prompts := llm_prompts w @
          [summary_prompt (get_str (summary d) '''') (get_str (buffer d) '''' @ new_entry r m)],
        clock_reads := Suc (clock_reads w)\<rparr>)"
  using assms
  by (auto simp: update_summary_def stored_def storage_defs Let_def)

lemma failed_compaction:
  assumes "llm_prompts (snd (update_summary e w u m r)) = llm_prompts w @ [p]"
    and "llm e (length (llm_prompts w)) p = Inl ex"
  shows "\<exists>d. stored w u = Some d \<and>
     UPDATE_THRESHOLD \<le> get_int (unsummarized_count d) 0 + (if r = ''User'' then 1 else 0) \<and>
     fst (update_summary e w u m r) = get_str (summary d) '''' \<and>
     stored (snd (update_summary e w u m r)) u =
       Some (d\<lparr>unsummarized_count :=
                  Some (get_int (unsummarized_count d) 0 + (if r = ''User'' then 1 else 0)),
               buffer := Some (get_str (buffer d) '''' @ new_entry r m),
               last_updated := Some (clock e (clock_reads w))\<rparr>)"
proof -
  from update_summary_calls [OF assms(1)] obtain d where
    d: "stored w u = Some d"
    and p: "p = summary_prompt (get_str (summary d) '''')
                  (get_str (buffer d) '''' @ new_entry r m)"
    and c: "UPDATE_THRESHOLD \<le> get_int (unsummarized_count d) 0 + (if r = ''User'' then 1 else 0)"
    by blast
  from assms(2) p have
    "llm e (length (llm_prompts w))
       (summary_prompt (get_str (summary d) '''') (get_str (buffer d) '''' @ new_entry r m))
     = Inl ex" by simp
  from update_summary_failed [OF d c this] d c show ?thesis
    by (simp add: stored_def)
qed

text \<open>The scenario: the third user turn of \<open>u\<close> arrives while generation is down.\<close>

lemma scenario_stored: "stored world_two ''u'' = Some doc_two"
  by (simp add: stored_def world_two_def)

lemma scenario_count:
  "UPDATE_THRESHOLD \<le>
     get_int (unsummarized_count doc_two) 0 + (if ''User'' = ''User'' then 1 else 0)"
  by (simp add: doc_two_def UPDATE_THRESHOLD_def get_int_def)

lemma scenario_down: "llm env_down k p = Inl (Exn ''timeout'')"
  by (simp add: env_down_def)

lemma scenario_call:
  "llm_prompts (snd (update_summary env_down world_two ''u'' ''hi'' ''User'')) =
     llm_prompts world_two @
       [summary_prompt (get_str (summary doc_two) '''')
          (get_str (buffer doc_two) '''' @ new_entry ''User'' ''hi'')]"
  by (rule update_summary_attempts [OF scenario_stored scenario_count])

lemma scenario_result:
  "stored (snd (update_summary env_down world_two ''u'' ''hi'' ''User'')) ''u'' =
     Some (doc_two\<lparr>unsummarized_count := Some 3,
                    buffer := Some (get_str (buffer doc_two) '''' @ new_entry ''User'' ''hi''),
                    last_updated := Some 1000\<rparr>)"
proof -
  note first = update_summary_failed [OF scenario_stored scenario_count scenario_down]
  have "clock env_down (clock_reads world_two) = 1000"
    by (simp add: env_down_def)
  moreover have "get_int (unsummarized_count doc_two) 0 = 2"
    by (simp add: doc_two_def get_int_def)
  ultimately show ?thesis
    unfolding first by (simp add: stored_def)
qed

text \<open>
  Claim C2, as stated: after a compaction whose generation call raised, the stored
  \<^verbatim>\<open>buffer\<close>, \<^verbatim>\<open>unsummarized_count\<close> and \<^verbatim>\<open>summary\<close> are what they were before the call.
  This fails: \<^verbatim>\<open>update_fields\<close> holds the appended buffer and the incremented count
  before the \<^verbatim>\<open>try\<close>, the \<^verbatim>\<open>except\<close> branch does not touch it, and \<^verbatim>\<open>update_one\<close> then
  writes it. In the scenario the call is made and raises, and both fields differ afterwards.
\<close>

theorem failed_compaction_changes_storage:
  "llm_prompts (snd (update_summary env_down world_two ''u'' ''hi'' ''User'')) =
     llm_prompts world_two @
       [summary_prompt (get_str (summary doc_two) '''')
          (get_str (buffer doc_two) '''' @ new_entry ''User'' ''hi'')] \<and>
   llm env_down (length (llm_prompts world_two))
     (summary_prompt (get_str (summary doc_two) '''')
        (get_str (buffer doc_two) '''' @ new_entry ''User'' ''hi'')) = Inl (Exn ''timeout'') \<and>
   map_option buffer (stored (snd (update_summary env_down world_two ''u'' ''hi'' ''User'')) ''u'')
     \<noteq> map_option buffer (stored world_two ''u'') \<and>
   map_option unsummarized_count
       (stored (snd (update_summary env_down world_two ''u'' ''hi'' ''User'')) ''u'')
     \<noteq> map_option unsummarized_count (stored world_two ''u'')"
  by (simp add: scenario_call scenario_down scenario_result scenario_stored get_str_def
      doc_two_def new_entry_def)

text \<open>
  Claim C2, amended: after a compaction whose generation call raised, the stored
  \<^verbatim>\<open>summary\<close> is what it was, and the append is persisted: the stored \<^verbatim>\<open>buffer\<close> is the
  previous buffer followed by the line \<^verbatim>\<open>"{role}: {text}\n"\<close>, the stored
  \<^verbatim>\<open>unsummarized_count\<close> is the previous count plus one for a User turn (the previous
  count for any other role), and \<^verbatim>\<open>last_updated\<close> is the time of the call. No other
  field of the document changes.
\<close>

theorem failed_compaction_keeps_summary_persists_append:
  assumes "llm_prompts (snd (update_summary e w user_id text role)) = llm_prompts w @ [p]"
    and "llm e (length (llm_prompts w)) p = Inl ex"
  shows "\<exists>d. stored w user_id = Some d \<and>
     stored (snd (update_summary e w user_id text role)) user_id =
       Some (d\<lparr>unsummarized_count :=
                  Some (get_int (unsummarized_count d) 0 + (if role = ''User'' then 1 else 0)),
               buffer := Some (get_str (buffer d) '''' @ new_entry role text),
               last_updated := Some (clock e (clock_reads w))\<rparr>)"
  using failed_compaction [OF assms] by blast

theorem failed_compaction_keeps_summary_persists_append_witness:
  "llm_prompts (snd (update_summary env_down world_two ''u'' ''hi'' ''User'')) =
     llm_prompts world_two @
       [summary_prompt (get_str (summary doc_two) '''')
          (get_str (buffer doc_two) '''' @ new_entry ''User'' ''hi'')] \<and>
   llm env_down (length (llm_prompts world_two))
     (summary_prompt (get_str (summary doc_two) '''')
        (get_str (buffer doc_two) '''' @ new_entry ''User'' ''hi'')) = Inl (Exn ''timeout'') \<and>
   stored (snd (update_summary env_down world_two ''u'' ''hi'' ''User'')) ''u'' =
     Some (doc_two\<lparr>unsummarized_count :=
              Some (get_int (unsummarized_count doc_two) 0 + (if ''User'' = ''User'' then 1 else 0)),
            buffer := Some (get_str (buffer doc_two) '''' @ new_entry ''User'' ''hi''),
            last_updated := Some (clock env_down (clock_reads world_two))\<rparr>)"
  using failed_compaction_keeps_summary_persists_append [OF scenario_call scenario_down]
  by (simp add: scenario_call scenario_down scenario_stored)

text \<open>
  Claim C3. If the generation call made during compaction raises, \<^verbatim>\<open>update_summary\<close>
  still returns (the \<^verbatim>\<open>except Exception\<close> branch absorbs the failure, so the model's
  result has no exception case): it returns the summary read before the call, the stored
  \<^verbatim>\<open>summary\<close> field is unchanged, and the stored \<^verbatim>\<open>buffer\<close> is the buffer that was pending
  before the call, verbatim, followed by the new line.
\<close>

theorem failed_compaction_returns_stale_summary:
  assumes "llm_prompts (snd (update_summary e w user_id text role)) = llm_prompts w @ [p]"
    and "llm e (length (llm_prompts w)) p = Inl ex"
  shows "\<exists>d d'. stored w user_id = Some d \<and>
     stored (snd (update_summary e w user_id text role)) user_id = Some d' \<and>
     fst (update_summary e w user_id text role) = get_str (summary d) '''' \<and>
     summary d' = summary d \<and>
     buffer d' = Some (get_str (buffer d) '''' @ new_entry role text)"
proof -
  from failed_compaction [OF assms] obtain d where
    "stored w user_id = Some d"
    "fst (update_summary e w user_id text role) = get_str (summary d) ''''"
    "stored (snd (update_summary e w user_id text role)) user_id =
       Some (d\<lparr>unsummarized_count :=
                  Some (get_int (unsummarized_count d) 0 + (if role = ''User'' then 1 else 0)),
               buffer := Some (get_str (buffer d) '''' @ new_entry role text),
               last_updated := Some (clock e (clock_reads w))\<rparr>)"
    by blast
  then show ?thesis by simp
qed

theorem failed_compaction_returns_stale_summary_witness:
  "llm_prompts (snd (update_summary env_down world_two ''u'' ''hi'' ''User'')) =
     llm_prompts world_two @
       [summary_prompt (get_str (summary doc_two) '''')
          (get_str (buffer doc_two) '''' @ new_entry ''User'' ''hi'')] \<and>
   llm env_down (length (llm_prompts world_two))
     (summary_prompt (get_str (summary doc_two) '''')
        (get_str (buffer doc_two) '''' @ new_entry ''User'' ''hi'')) = Inl (Exn ''timeout'') \<and>
   fst (update_summary env_down world_two ''u'' ''hi'' ''User'') = ''likes tea'' \<and>
   map_option summary (stored (snd (update_summary env_down world_two ''u'' ''hi'' ''User'')) ''u'')
     = Some (Some ''likes tea'') \<and>
   map_option buffer (stored (snd (update_summary env_down world_two ''u'' ''hi'' ''User'')) ''u'')
     = Some (Some (get_str (buffer doc_two) '''' @ new_entry ''User'' ''hi''))"
  using failed_compaction_returns_stale_summary [OF scenario_call scenario_down]
  by (auto simp: scenario_call scenario_down scenario_stored)
    (simp_all add: doc_two_def get_str_def)

text \<open>
  Claim C4, as stated: after a failed compaction attempt the next call of
  \<^verbatim>\<open>update_summary\<close> does not attempt compaction again. This fails: the failed attempt
  persists a count that is at the threshold or above, so the next call meets
  \<^verbatim>\<open>unsummarized_count >= UPDATE_THRESHOLD\<close> again. In the scenario the first call makes
  a generation call that raises, and the next call, the append of a Bot turn with no
  further user turn, makes a second generation call.
\<close>

theorem next_call_retries_compaction:
  "llm_prompts (snd (update_summary env_down world_two ''u'' ''hi'' ''User'')) =
     llm_prompts world_two @
       [summary_prompt (get_str (summary doc_two) '''')
          (get_str (buffer doc_two) '''' @ new_entry ''User'' ''hi'')] \<and>
   llm env_down (length (llm_prompts world_two))
     (summary_prompt (get_str (summary doc_two) '''')
        (get_str (buffer doc_two) '''' @ new_entry ''User'' ''hi'')) = Inl (Exn ''timeout'') \<and>
   length (llm_prompts
     (snd (update_summary env_down (snd (update_summary env_down world_two ''u'' ''hi'' ''User''))
             ''u'' ''ok'' ''Bot''))) =
   length (llm_prompts (snd (update_summary env_down world_two ''u'' ''hi'' ''User''))) + 1"
proof -
  have "UPDATE_THRESHOLD \<le>
      get_int (unsummarized_count
        (doc_two\<lparr>unsummarized_count := Some 3,
                 buffer := Some (get_str (buffer doc_two) '''' @ new_entry ''User'' ''hi''),
                 last_updated := Some 1000\<rparr>)) 0 + (if ''Bot'' = ''User'' then 1 else 0)"
    by (simp add: UPDATE_THRESHOLD_def get_int_def)
  from update_summary_attempts [OF scenario_result this, of env_down "''ok''"]
  show ?thesis
    by (simp add: scenario_call scenario_down)
qed

text \<open>
  Claim C4, amended: after a compaction attempt whose generation call raised, the next
  call of \<^verbatim>\<open>update_summary\<close> for that user attempts compaction again, whatever its text
  and role and whatever the generation service then does: it makes exactly one
  generation call.
\<close>

theorem failed_compaction_is_retried_by_next_call:
  assumes "llm_prompts (snd (update_summary e w user_id text role)) = llm_prompts w @ [p]"
    and "llm e (length (llm_prompts w)) p = Inl ex"
  shows "\<exists>p2. llm_prompts (snd (update_summary e2 (snd (update_summary e w user_id text role))
                                user_id text2 role2)) =
               llm_prompts (snd (update_summary e w user_id text role)) @ [p2]"
proof -
  from failed_compaction [OF assms] obtain d where
    c: "UPDATE_THRESHOLD \<le> get_int (unsummarized_count d) 0 + (if role = ''User'' then 1 else 0)"
    and s: "stored (snd (update_summary e w user_id text role)) user_id =
       Some (d\<lparr>unsummarized_count :=
                  Some (get_int (unsummarized_count d) 0 + (if role = ''User'' then 1 else 0)),
               buffer := Some (get_str (buffer d) '''' @ new_entry role text),
               last_updated := Some (clock e (clock_reads w))\<rparr>)"
    by blast
  let ?d' = "d\<lparr>unsummarized_count :=
                 Some (get_int (unsummarized_count d) 0 + (if role = ''User'' then 1 else 0)),
               buffer := Some (get_str (buffer d) '''' @ new_entry role text),
               last_updated := Some (clock e (clock_reads w))\<rparr>"
  have c': "UPDATE_THRESHOLD \<le>
      get_int (unsummarized_count ?d') 0 + (if role2 = ''User'' then 1 else 0)"
    using c by (simp add: get_int_def)
  from update_summary_attempts [OF s c'] show ?thesis
    by blast
qed

theorem failed_compaction_is_retried_by_next_call_witness:
  "llm_prompts (snd (update_summary env_down world_two ''u'' ''hi'' ''User'')) =
     llm_prompts world_two @
       [summary_prompt (get_str (summary doc_two) '''')
          (get_str (buffer doc_two) '''' @ new_entry ''User'' ''hi'')] \<and>
   llm env_down (length (llm_prompts world_two))
     (summary_prompt (get_str (summary doc_two) '''')
        (get_str (buffer doc_two) '''' @ new_entry ''User'' ''hi'')) = Inl (Exn ''timeout'') \<and>
   (\<exists>p2. llm_prompts
       (snd (update_summary env_up (snd (update_summary env_down world_two ''u'' ''hi'' ''User''))
               ''u'' ''again'' ''User'')) =
     llm_prompts (snd (update_summary env_down world_two ''u'' ''hi'' ''User'')) @ [p2])"
  using failed_compaction_is_retried_by_next_call [OF scenario_call scenario_down]
  by (simp add: scenario_call scenario_down)

subsubsection \<open>Two calls for one user\<close>

text \<open>
  \<^verbatim>\<open>update_summary\<close> is its read phase followed by its write phase, with nothing between
  the two that would keep another call out.
\<close>

lemma update_summary_phases:
  "update_summary e w u m r =
     (fst (fst (read_phase e w u m r)),
      write_phase (snd (read_phase e w u m r)) u (snd (fst (read_phase e w u m r))))"
proof (cases "conversation_summaries w u")
  case None
  then show ?thesis
    by (simp add: update_summary_def read_phase_def write_phase_def storage_defs
        new_record_def UPDATE_THRESHOLD_def)
next
  case (Some d)
  then show ?thesis
    by (simp add: update_summary_def read_phase_def write_phase_def storage_defs Let_def
        split: sum.splits)
qed

lemma read_phase_stored:
  "stored (snd (read_phase e w u m r)) u = Some (base_record w u)"
proof (cases "conversation_summaries w u")
  case None
  then show ?thesis
    by (simp add: read_phase_def stored_def base_record_def storage_defs new_record_def
        UPDATE_THRESHOLD_def)
next
  case (Some d)
  then show ?thesis
    by (simp add: read_phase_def stored_def base_record_def storage_defs Let_def
        split: sum.splits)
qed

lemma read_phase_clock:
  "clock_reads (snd (read_phase e w u m r)) = Suc (clock_reads w)"
proof (cases "conversation_summaries w u")
  case None
  then show ?thesis
    by (simp add: read_phase_def storage_defs new_record_def UPDATE_THRESHOLD_def)
next
  case (Some d)
  then show ?thesis
    by (simp add: read_phase_def storage_defs Let_def split: sum.splits)
qed

lemma read_phase_fields_below:
  assumes "get_int (unsummarized_count (base_record w u)) 0 + turn_count r < UPDATE_THRESHOLD"
  shows "snd (fst (read_phase e w u m r)) =
     \<lparr>summary = None,
      unsummarized_count =
        Some (get_int (unsummarized_count (base_record w u)) 0 + turn_count r),
      buffer = Some (get_str (buffer (base_record w u)) '''' @ new_entry r m),
      last_updated = Some (clock e (clock_reads w))\<rparr>"
proof (cases "conversation_summaries w u")
  case None
  then show ?thesis
    by (simp add: read_phase_def base_record_def turn_count_def storage_defs new_record_def
        UPDATE_THRESHOLD_def)
next
  case (Some d)
  with assms show ?thesis
    by (auto simp: read_phase_def base_record_def turn_count_def storage_defs Let_def
        UPDATE_THRESHOLD_def split: if_splits)
qed

lemma base_record_stored: "stored w u = Some d \<Longrightarrow> base_record w u = d"
  by (simp add: stored_def base_record_def)

lemma write_phase_stored:
  "stored (write_phase w u f) u = map_option (\<lambda>d. set_fields d f) (stored w u)"
  by (cases "conversation_summaries w u")
    (simp_all add: write_phase_def update_one_def stored_def)

lemma update_summary_below:
  assumes "get_int (unsummarized_count (base_record w u)) 0 + turn_count r < UPDATE_THRESHOLD"
  shows "stored (snd (update_summary e w u m r)) u =
     Some ((base_record w u)
       \<lparr>unsummarized_count :=
           Some (get_int (unsummarized_count (base_record w u)) 0 + turn_count r),
         buffer := Some (get_str (buffer (base_record w u)) '''' @ new_entry r m),
         last_updated := Some (clock e (clock_reads w))\<rparr>)"
  by (simp add: update_summary_phases write_phase_stored read_phase_stored
      read_phase_fields_below [OF assms] set_fields_def)

lemma turn_count_nonneg: "0 \<le> turn_count r"
  by (simp add: turn_count_def)

lemma serial_below:
  assumes "get_int (unsummarized_count (base_record w u)) 0 + turn_count ra + turn_count rb
           < UPDATE_THRESHOLD"
  shows "stored (serial e w u ma ra mb rb) u =
     Some ((base_record w u)
       \<lparr>unsummarized_count :=
           Some (get_int (unsummarized_count (base_record w u)) 0 + turn_count ra
                 + turn_count rb),
         buffer := Some (get_str (buffer (base_record w u)) '''' @ new_entry ra ma
                         @ new_entry rb mb),
         last_updated := Some (clock e (Suc (clock_reads w)))\<rparr>)"
proof -
  let ?w1 = "snd (update_summary e w u ma ra)"
  let ?d1 = "(base_record w u)
       \<lparr>unsummarized_count :=
           Some (get_int (unsummarized_count (base_record w u)) 0 + turn_count ra),
         buffer := Some (get_str (buffer (base_record w u)) '''' @ new_entry ra ma),
         last_updated := Some (clock e (clock_reads w))\<rparr>"
  from assms turn_count_nonneg [of rb]
  have a: "get_int (unsummarized_count (base_record w u)) 0 + turn_count ra < UPDATE_THRESHOLD"
    by simp
  have s1: "stored ?w1 u = Some ?d1"
    by (rule update_summary_below [OF a])
  have b1: "base_record ?w1 u = ?d1"
    by (rule base_record_stored [OF s1])
  have c1: "clock_reads ?w1 = Suc (clock_reads w)"
    by (simp add: update_summary_phases write_phase_def update_one_def read_phase_clock)
  have b: "get_int (unsummarized_count (base_record ?w1 u)) 0 + turn_count rb < UPDATE_THRESHOLD"
    using assms by (simp add: b1 get_int_def)
  from update_summary_below [OF b, of e mb] show ?thesis
    by (simp add: serial_def b1 c1 get_int_def get_str_def)
qed

lemma interleaved_below:
  assumes "get_int (unsummarized_count (base_record w u)) 0 + turn_count ra + turn_count rb
           < UPDATE_THRESHOLD"
  shows "stored (interleaved e w u ma ra mb rb) u =
     Some ((base_record w u)
       \<lparr>unsummarized_count :=
           Some (get_int (unsummarized_count (base_record w u)) 0 + turn_count rb),
         buffer := Some (get_str (buffer (base_record w u)) '''' @ new_entry rb mb),
         last_updated := Some (clock e (Suc (clock_reads w)))\<rparr>)"
proof -
  let ?w1 = "snd (read_phase e w u ma ra)"
  let ?w2 = "snd (read_phase e ?w1 u mb rb)"
  have s1: "stored ?w1 u = Some (base_record w u)"
    by (rule read_phase_stored)
  have b1: "base_record ?w1 u = base_record w u"
    by (rule base_record_stored [OF s1])
  have c1: "clock_reads ?w1 = Suc (clock_reads w)"
    by (rule read_phase_clock)
  from assms turn_count_nonneg [of rb]
  have a: "get_int (unsummarized_count (base_record w u)) 0 + turn_count ra < UPDATE_THRESHOLD"
    by simp
  from assms turn_count_nonneg [of ra]
  have "get_int (unsummarized_count (base_record w u)) 0 + turn_count rb < UPDATE_THRESHOLD"
    by simp
  then have b: "get_int (unsummarized_count (base_record ?w1 u)) 0 + turn_count rb
      < UPDATE_THRESHOLD"
    by (simp add: b1)
  have s2: "stored ?w2 u = Some (base_record w u)"
    by (simp add: read_phase_stored b1)
  have "interleaved e w u ma ra mb rb =
      write_phase (write_phase ?w2 u (snd (fst (read_phase e w u ma ra)))) u
        (snd (fst (read_phase e ?w1 u mb rb)))"
    by (simp add: interleaved_def split_def Let_def)
  then show ?thesis
    by (simp add: write_phase_stored s2 read_phase_fields_below [OF b]
        read_phase_fields_below [OF a] b1 c1 set_fields_def)
qed

text \<open>
  Claim C5, as stated: two concurrent calls of \<^verbatim>\<open>update_summary\<close> for one \<^verbatim>\<open>user_id\<close> are
  serialized across load, mutate and persist, so that neither call's append is lost.
  This fails: the code takes no lock and its \<^verbatim>\<open>update_one\<close> is unconditional. For a new
  user, let call A (\<open>first\<close>) and call B (\<open>second\<close>) both read before either writes.
  Then storage ends with B's line alone and a count of 1: A's line is not in the buffer.
  Run one after the other, the same two calls leave both lines and a count of 2.
\<close>

theorem interleaved_calls_lose_first_append:
  "map_option buffer
     (stored (interleaved env_up world_empty ''u'' ''first'' ''User'' ''second'' ''User'') ''u'')
     = Some (Some (new_entry ''User'' ''second'')) \<and>
   \<not> sublist (new_entry ''User'' ''first'') (new_entry ''User'' ''second'') \<and>
   map_option unsummarized_count
     (stored (interleaved env_up world_empty ''u'' ''first'' ''User'' ''second'' ''User'') ''u'')
     = Some (Some 1) \<and>
   map_option buffer
     (stored (serial env_up world_empty ''u'' ''first'' ''User'' ''second'' ''User'') ''u'')
     = Some (Some (new_entry ''User'' ''first'' @ new_entry ''User'' ''second'')) \<and>
   map_option unsummarized_count
     (stored (serial env_up world_empty ''u'' ''first'' ''User'' ''second'' ''User'') ''u'')
     = Some (Some 2)"
proof -
  have b: "base_record world_empty ''u'' = new_record"
    by (simp add: base_record_def world_empty_def)
  have h: "get_int (unsummarized_count (base_record world_empty ''u'')) 0
      + turn_count ''User'' + turn_count ''User'' < UPDATE_THRESHOLD"
    by (simp add: b new_record_def get_int_def turn_count_def UPDATE_THRESHOLD_def)
  have n: "\<not> sublist (new_entry ''User'' ''first'') (new_entry ''User'' ''second'')"
    by (simp add: new_entry_def sublist_Cons_right)
  from n show ?thesis
    by (simp add: interleaved_below [OF h] serial_below [OF h] b)
      (simp add: new_record_def get_int_def get_str_def turn_count_def)
qed

text \<open>
  Claim C5, amended: \<^verbatim>\<open>update_summary\<close> does not serialize calls for the same
  \<^verbatim>\<open>user_id\<close>. When two calls that trigger no compaction run one after the other,
  both appends are kept: the buffer gains both lines in order and the count both turns.
  When both calls read the document before either writes, the second write replaces the
  first: the buffer gains the second call's line only and the count the second call's
  turn only, so the first call's append is lost.
\<close>

theorem unserialized_calls_lose_an_append:
  assumes "get_int (unsummarized_count (base_record w user_id)) 0
           + turn_count role_a + turn_count role_b < UPDATE_THRESHOLD"
  shows
    "map_option buffer (stored (serial e w user_id text_a role_a text_b role_b) user_id) =
       Some (Some (get_str (buffer (base_record w user_id)) ''''
                   @ new_entry role_a text_a @ new_entry role_b text_b)) \<and>
     map_option unsummarized_count
         (stored (serial e w user_id text_a role_a text_b role_b) user_id) =
       Some (Some (get_int (unsummarized_count (base_record w user_id)) 0
                   + turn_count role_a + turn_count role_b)) \<and>
     map_option buffer
         (stored (interleaved e w user_id text_a role_a text_b role_b) user_id) =
       Some (Some (get_str (buffer (base_record w user_id)) '''' @ new_entry role_b text_b)) \<and>
     map_option unsummarized_count
         (stored (interleaved e w user_id text_a role_a text_b role_b) user_id) =
       Some (Some (get_int (unsummarized_count (base_record w user_id)) 0
                   + turn_count role_b))"
  by (simp add: serial_below [OF assms] interleaved_below [OF assms])

theorem unserialized_calls_lose_an_append_witness:
  "get_int (unsummarized_count (base_record world_empty ''u'')) 0
     + turn_count ''User'' + turn_count ''Bot'' < UPDATE_THRESHOLD \<and>
   map_option buffer
     (stored (serial env_up world_empty ''u'' ''hello'' ''User'' ''hi there'' ''Bot'') ''u'') =
     Some (Some (get_str (buffer (base_record world_empty ''u'')) ''''
                 @ new_entry ''User'' ''hello'' @ new_entry ''Bot'' ''hi there'')) \<and>
   map_option buffer
     (stored (interleaved env_up world_empty ''u'' ''hello'' ''User'' ''hi there'' ''Bot'')
        ''u'') =
     Some (Some (get_str (buffer (base_record world_empty ''u'')) ''''
                 @ new_entry ''Bot'' ''hi there'')) \<and>
   map_option unsummarized_count
     (stored (interleaved env_up world_empty ''u'' ''hello'' ''User'' ''hi there'' ''Bot'')
        ''u'') =
     Some (Some (get_int (unsummarized_count (base_record world_empty ''u'')) 0
                 + turn_count ''Bot''))"
proof -
  have b: "base_record world_empty ''u'' = new_record"
    by (simp add: base_record_def world_empty_def)
  have h: "get_int (unsummarized_count (base_record world_empty ''u'')) 0
      + turn_count ''User'' + turn_count ''Bot'' < UPDATE_THRESHOLD"
    by (simp add: b new_record_def get_int_def turn_count_def UPDATE_THRESHOLD_def)
  from unserialized_calls_lose_an_append
         [OF h, of env_up "''hello''" "''hi there''"] h
  show ?thesis
    by blast
qed

subsection \<open>The message pipeline\<close>

text \<open>
  \<^verbatim>\<open>update_summary\<close> sends no alert, does not read the SMTP oracle, and neither reads
  nor writes the log of delivered mail.
\<close>

lemma update_summary_alerts:
  "alerts (snd (update_summary e w u m r)) = alerts w"
proof (cases "conversation_summaries w u")
  case None
  then show ?thesis
    by (simp add: update_summary_def storage_defs new_record_def UPDATE_THRESHOLD_def)
next
  case (Some d)
  then show ?thesis
    by (simp add: update_summary_def storage_defs Let_def split: sum.splits)
qed

lemma update_summary_smtp:
  "update_summary (e\<lparr>smtp := s\<rparr>) w u m r = update_summary e w u m r"
  by (simp add: update_summary_def storage_defs Let_def split_def)

lemma update_summary_emails:
  "update_summary e (w\<lparr>emails_sent := x\<rparr>) u m r =
     (fst (update_summary e w u m r), (snd (update_summary e w u m r))\<lparr>emails_sent := x\<rparr>)"
proof (cases "conversation_summaries w u")
  case None
  then show ?thesis
    by (simp add: update_summary_def storage_defs new_record_def UPDATE_THRESHOLD_def)
next
  case (Some d)
  then show ?thesis
    by (simp add: update_summary_def storage_defs Let_def split: sum.splits)
qed

lemma send_email_alert_eq:
  "send_email_alert e w subject message =
     w\<lparr>alerts := alerts w @ [(subject, message)],
       emails_sent := (if smtp e (length (alerts w)) then emails_sent w @ [(subject, message)]
                       else emails_sent w)\<rparr>"
  by (simp add: send_email_alert_def Let_def)

lemma steps_smtp_fst:
  "fst (steps_2_to_4 (e\<lparr>smtp := s\<rparr>) w t u) = fst (steps_2_to_4 e w t u)"
  by (simp add: steps_2_to_4_def send_email_alert_eq split_def update_summary_emails
      update_summary_smtp Let_def)

lemma steps_smtp_prompts:
  "llm_prompts (snd (steps_2_to_4 (e\<lparr>smtp := s\<rparr>) w t u)) =
   llm_prompts (snd (steps_2_to_4 e w t u))"
  by (simp add: steps_2_to_4_def send_email_alert_eq split_def update_summary_emails
      update_summary_smtp Let_def)

lemma reply_call_smtp:
  "reply_call (e\<lparr>smtp := s\<rparr>) w text u = reply_call e w text u"
  by (simp add: reply_call_def split_def Let_def get_llm_response_def steps_smtp_fst
      steps_smtp_prompts)

lemma steps_alerts:
  "alerts (snd (steps_2_to_4 e w t u)) =
     (if check_media_request t
      then alerts w @ [(''Media Request Detected'', media_alert u t)] else alerts w)"
  by (simp add: steps_2_to_4_def send_email_alert_eq split_def Let_def update_summary_alerts)

lemma process_message_unfold:
  assumes "strip text \<noteq> []" and "steps_2_to_4 e w (strip text) u = (prompt, w2)"
  shows "process_message e w (Some text) u =
     (case llm e (length (llm_prompts w2)) prompt of
        Inl ex \<Rightarrow> (Inl ex, send_email_alert e (w2\<lparr>llm_prompts := llm_prompts w2 @ [prompt]\<rparr>)
                      ''LLM API Failure'' (error_message u prompt ex))
      | Inr response \<Rightarrow> (Inr response,
          snd (update_summary e (w2\<lparr>llm_prompts := llm_prompts w2 @ [prompt]\<rparr>) u response ''Bot'')))"
  using assms
  by (simp add: process_message_def preprocess_message_def get_llm_response_def)

lemma fst_process_message:
  assumes "strip text \<noteq> []"
  shows "fst (process_message e w (Some text) u) = reply_call e w text u"
proof -
  obtain prompt w2 where st: "steps_2_to_4 e w (strip text) u = (prompt, w2)"
    by (cases "steps_2_to_4 e w (strip text) u")
  show ?thesis
    by (simp add: process_message_unfold[OF assms st] reply_call_def st get_llm_response_def
        split: sum.splits)
qed

lemma process_message_alerts:
  assumes "strip text \<noteq> []"
  shows "alerts (snd (process_message e w (Some text) u)) =
     alerts (snd (steps_2_to_4 e w (strip text) u)) @
     (case reply_call e w text u of
        Inl ex \<Rightarrow> [(''LLM API Failure'',
                    error_message u (fst (steps_2_to_4 e w (strip text) u)) ex)]
      | Inr response \<Rightarrow> [])"
proof -
  obtain prompt w2 where st: "steps_2_to_4 e w (strip text) u = (prompt, w2)"
    by (cases "steps_2_to_4 e w (strip text) u")
  show ?thesis
    by (simp add: process_message_unfold[OF assms st] reply_call_def st get_llm_response_def
        send_email_alert_eq update_summary_alerts split: sum.splits)
qed

lemma process_message_prompts_failed:
  assumes "strip text \<noteq> []" and "reply_call e w text u = Inl ex"
  shows "llm_prompts (snd (process_message e w (Some text) u)) =
     llm_prompts (snd (steps_2_to_4 e w (strip text) u)) @ [fst (steps_2_to_4 e w (strip text) u)]"
proof -
  obtain prompt w2 where st: "steps_2_to_4 e w (strip text) u = (prompt, w2)"
    by (cases "steps_2_to_4 e w (strip text) u")
  from assms(2) show ?thesis
    by (simp add: process_message_unfold[OF assms(1) st] reply_call_def st get_llm_response_def
        send_email_alert_eq split: sum.splits)
qed

lemma strip_blank:
  assumes "list_all isspace s"
  shows "strip s = []"
proof -
  from assms have d: "dropWhile isspace s = []"
    by (simp add: list_all_iff)
  show ?thesis
    by (simp only: strip_def d rev.simps dropWhile.simps)
qed

lemma strip_decomp:
  "\<exists>lead trail. s = lead @ strip s @ trail \<and> list_all isspace lead \<and> list_all isspace trail"
proof -
  let ?t = "dropWhile isspace s"
  have "rev ?t = takeWhile isspace (rev ?t) @ dropWhile isspace (rev ?t)"
    by simp
  then have "?t = rev (dropWhile isspace (rev ?t)) @ rev (takeWhile isspace (rev ?t))"
    by (metis rev_append rev_rev_ident)
  then have "s = takeWhile isspace s @ strip s @ rev (takeWhile isspace (rev ?t))"
    by (metis strip_def takeWhile_dropWhile_id)
  moreover have "list_all isspace (takeWhile isspace s)"
    by (simp add: list_all_iff) (meson set_takeWhileD)
  moreover have "list_all isspace (rev (takeWhile isspace (rev ?t)))"
    by (simp add: list_all_iff) (meson set_takeWhileD)
  ultimately show ?thesis by blast
qed

lemma sublist_skip_lead:
  assumes "sublist kw (lead @ rest)" and "list_all P lead" and "\<forall>c\<in>set kw. \<not> P c"
  shows "sublist kw rest"
  using assms
proof (induction lead)
  case Nil
  then show ?case by simp
next
  case (Cons a lead)
  from Cons.prems(1) have "prefix kw (a # lead @ rest) \<or> sublist kw (lead @ rest)"
    by (simp add: sublist_Cons_right)
  then show ?case
  proof
    assume p: "prefix kw (a # lead @ rest)"
    show ?thesis
    proof (cases kw)
      case Nil
      then show ?thesis by simp
    next
      case (Cons k kw')
      with p have "k = a" by simp
      with Cons Cons.prems(2,3) show ?thesis by simp
    qed
  next
    assume "sublist kw (lead @ rest)"
    with Cons show ?thesis by simp
  qed
qed

lemma sublist_skip_trail:
  assumes "sublist kw (rest @ trail)" and "list_all P trail" and "\<forall>c\<in>set kw. \<not> P c"
  shows "sublist kw rest"
proof -
  from assms(1) have "sublist (rev kw) (rev trail @ rev rest)"
    by (metis rev_append sublist_rev)
  moreover from assms(2) have "list_all P (rev trail)"
    by (simp add: list_all_iff)
  moreover from assms(3) have "\<forall>c\<in>set (rev kw). \<not> P c"
    by simp
  ultimately have "sublist (rev kw) (rev rest)"
    by (rule sublist_skip_lead)
  then show ?thesis by simp
qed

lemma lower_char_space: "isspace c \<Longrightarrow> isspace (lower_char c)"
  by (auto simp: isspace_def lower_char_def Let_def)

lemma lower_space: "list_all isspace s \<Longrightarrow> list_all isspace (lower s)"
  by (simp add: lower_def list_all_iff lower_char_space)

lemma keyword_no_space:
  "keyword \<in> set media_keywords \<Longrightarrow> \<forall>c\<in>set keyword. \<not> isspace c"
  by (auto simp: media_keywords_def isspace_def)

lemma keyword_in_stripped:
  assumes "keyword \<in> set media_keywords" and "sublist keyword (lower text)"
  shows "sublist keyword (lower (strip text))"
proof -
  from strip_decomp obtain lead trail where
    s: "text = lead @ strip text @ trail" and l: "list_all isspace lead"
    and t: "list_all isspace trail"
    by blast
  from s have "lower text = lower lead @ lower (strip text) @ lower trail"
    by (metis lower_def map_append)
  with assms(2) have "sublist keyword (lower lead @ lower (strip text) @ lower trail)"
    by simp
  then have "sublist keyword (lower (strip text) @ lower trail)"
    by (rule sublist_skip_lead [OF _ lower_space [OF l] keyword_no_space [OF assms(1)]])
  then show ?thesis
    by (rule sublist_skip_trail [OF _ lower_space [OF t] keyword_no_space [OF assms(1)]])
qed

lemma keyword_media_request:
  assumes "keyword \<in> set media_keywords" and "sublist keyword (lower text)"
  shows "check_media_request (strip text)" and "strip text \<noteq> []"
proof -
  from keyword_in_stripped [OF assms] have k: "sublist keyword (lower (strip text))" .
  with assms(1) show "check_media_request (strip text)"
    by (auto simp: check_media_request_def list_ex_iff)
  from assms(1) have "keyword \<noteq> []"
    by (auto simp: media_keywords_def)
  with k show "strip text \<noteq> []"
    by (auto simp: lower_def)
qed

text \<open>
  Claim C7. \<^verbatim>\<open>process_message(None, user_id)\<close> and \<^verbatim>\<open>process_message(s, user_id)\<close> for a
  string \<open>s\<close> of whitespace only both return the fallback string
  \<^verbatim>\<open>"I didn't catch that. Could you please repeat?"\<close> and leave the world as it was:
  no storage operation, no generation call (and no alert) is made.
\<close>

theorem blank_message_gets_fallback:
  assumes "list_all isspace s"
  shows "process_message e w None user_id = (Inr fallback_reply, w) \<and>
         process_message e w (Some s) user_id = (Inr fallback_reply, w) \<and>
         fallback_reply = ''I didn't catch that. Could you please repeat?''"
  by (simp add: process_message_def preprocess_message_def strip_blank [OF assms]
      fallback_reply_def)

theorem blank_message_gets_fallback_witness:
  "list_all isspace ''   '' \<and>
   process_message env_up world_two None ''u'' = (Inr fallback_reply, world_two) \<and>
   process_message env_up world_two (Some ''   '') ''u'' = (Inr fallback_reply, world_two) \<and>
   storage_ops (snd (process_message env_up world_two (Some ''   '') ''u'')) = [] \<and>
   llm_prompts (snd (process_message env_up world_two (Some ''   '') ''u'')) = []"
proof -
  have h: "list_all isspace ''   ''"
    by (simp add: isspace_def)
  show ?thesis
    using blank_message_gets_fallback [OF h, of env_up world_two "''u''"] h
    by (simp add: world_two_def)
qed

text \<open>
  Claim C8. For a message that reaches Step 5, the outcome of \<^verbatim>\<open>process_message\<close> is the
  outcome of the reply-generation call: it returns normally exactly when that call
  returns, with its text, and raises the same exception when the call raises. In that
  case exactly one alert with subject \<^verbatim>\<open>"LLM API Failure"\<close> is sent; the prompt is the one
  the failed call was made with, and the body of the alert contains the \<^verbatim>\<open>user_id\<close> and
  the whole prompt.
\<close>

theorem reply_failure_notified_then_raised:
  assumes "strip text \<noteq> ''''"
  shows "fst (process_message e w (Some text) user_id) = reply_call e w text user_id \<and>
    (reply_call e w text user_id = Inl ex \<longrightarrow>
       alerts_with ''LLM API Failure'' (snd (process_message e w (Some text) user_id)) =
         alerts_with ''LLM API Failure'' w @
           [(''LLM API Failure'',
             error_message user_id (fst (steps_2_to_4 e w (strip text) user_id)) ex)] \<and>
       last (llm_prompts (snd (process_message e w (Some text) user_id))) =
         fst (steps_2_to_4 e w (strip text) user_id) \<and>
       sublist user_id
         (error_message user_id (fst (steps_2_to_4 e w (strip text) user_id)) ex) \<and>
       sublist (fst (steps_2_to_4 e w (strip text) user_id))
         (error_message user_id (fst (steps_2_to_4 e w (strip text) user_id)) ex))"
proof (intro conjI impI)
  show "fst (process_message e w (Some text) user_id) = reply_call e w text user_id"
    by (rule fst_process_message [OF assms])
next
  assume f: "reply_call e w text user_id = Inl ex"
  show "alerts_with ''LLM API Failure'' (snd (process_message e w (Some text) user_id)) =
         alerts_with ''LLM API Failure'' w @
           [(''LLM API Failure'',
             error_message user_id (fst (steps_2_to_4 e w (strip text) user_id)) ex)]"
    by (simp add: alerts_with_def process_message_alerts [OF assms] f steps_alerts)
  show "last (llm_prompts (snd (process_message e w (Some text) user_id))) =
         fst (steps_2_to_4 e w (strip text) user_id)"
    by (simp add: process_message_prompts_failed [OF assms f])
  show "sublist user_id
         (error_message user_id (fst (steps_2_to_4 e w (strip text) user_id)) ex)"
    unfolding error_message_def by (rule sublist_appendI)
  have "sublist (fst (steps_2_to_4 e w (strip text) user_id))
      ((''Error for user '' @ user_id @ '' with prompt: '') @
       fst (steps_2_to_4 e w (strip text) user_id) @ ([CHR 0x0A] @ ''Error: '' @ str_exn ex))"
    by (rule sublist_appendI)
  then show "sublist (fst (steps_2_to_4 e w (strip text) user_id))
         (error_message user_id (fst (steps_2_to_4 e w (strip text) user_id)) ex)"
    by (simp add: error_message_def)
qed

theorem reply_failure_notified_then_raised_witness:
  "strip ''hello'' \<noteq> '''' \<and>
   reply_call env_down world_two ''hello'' ''u'' = Inl (Exn ''timeout'') \<and>
   fst (process_message env_down world_two (Some ''hello'') ''u'') = Inl (Exn ''timeout'') \<and>
   alerts_with ''LLM API Failure''
       (snd (process_message env_down world_two (Some ''hello'') ''u'')) =
     alerts_with ''LLM API Failure'' world_two @
       [(''LLM API Failure'',
         error_message ''u'' (fst (steps_2_to_4 env_down world_two (strip ''hello'') ''u''))
           (Exn ''timeout''))]"
proof -
  have h: "strip ''hello'' \<noteq> ''''"
    by (simp add: strip_def isspace_def)
  have r: "reply_call env_down world_two ''hello'' ''u'' = Inl (Exn ''timeout'')"
    by (simp add: reply_call_def get_llm_response_def split_def Let_def scenario_down)
  show ?thesis
    using reply_failure_notified_then_raised
            [OF h, of env_down world_two "''u''" "Exn ''timeout''"] h r
    by simp
qed

text \<open>
  Claim C9. For a message whose lowercased text contains \<^verbatim>\<open>"video"\<close>, \<^verbatim>\<open>"photo"\<close> or
  \<^verbatim>\<open>"voice"\<close>, \<^verbatim>\<open>process_message\<close> sends exactly one alert with subject
  \<^verbatim>\<open>"Media Request Detected"\<close>; and the outcome of the pipeline (the reply returned or
  the exception raised) is the same whatever the SMTP sessions do.
\<close>

theorem media_request_alerts_once:
  assumes "keyword \<in> set media_keywords" and "sublist keyword (lower text)"
  shows "alerts_with ''Media Request Detected'' (snd (process_message e w (Some text) user_id)) =
       alerts_with ''Media Request Detected'' w @
         [(''Media Request Detected'', media_alert user_id (strip text))] \<and>
     fst (process_message (e\<lparr>smtp := s\<rparr>) w (Some text) user_id) =
       fst (process_message e w (Some text) user_id)"
proof
  note m = keyword_media_request [OF assms]
  show "alerts_with ''Media Request Detected'' (snd (process_message e w (Some text) user_id)) =
       alerts_with ''Media Request Detected'' w @
         [(''Media Request Detected'', media_alert user_id (strip text))]"
    by (simp add: alerts_with_def process_message_alerts [OF m(2)] steps_alerts m(1)
        split: sum.splits)
  show "fst (process_message (e\<lparr>smtp := s\<rparr>) w (Some text) user_id) =
       fst (process_message e w (Some text) user_id)"
    by (simp add: fst_process_message [OF m(2)] reply_call_smtp)
qed

theorem media_request_alerts_once_witness:
  "''photo'' \<in> set media_keywords \<and>
   sublist ''photo'' (lower ''Send me a PHOTO'') \<and>
   alerts_with ''Media Request Detected''
       (snd (process_message env_down world_two (Some ''Send me a PHOTO'') ''u'')) =
     alerts_with ''Media Request Detected'' world_two @
       [(''Media Request Detected'', media_alert ''u'' (strip ''Send me a PHOTO''))] \<and>
   fst (process_message (env_down\<lparr>smtp := smtp env_up\<rparr>) world_two
          (Some ''Send me a PHOTO'') ''u'') =
     fst (process_message env_down world_two (Some ''Send me a PHOTO'') ''u'')"
proof -
  have k: "''photo'' \<in> set media_keywords"
    by (simp add: media_keywords_def)
  have l: "lower ''Send me a PHOTO'' = ''send me a photo''"
    by code_simp
  have i: "sublist ''photo'' (lower ''Send me a PHOTO'')"
    unfolding l by (simp add: sublist_Cons_right)
  show ?thesis
    using media_request_alerts_once
            [OF k i, of env_down world_two "''u''" "smtp env_up"] k i
    by simp
qed

subsection \<open>The rate limiter\<close>

lemma is_rate_limited_fst:
  "fst (is_rate_limited fs limit t m u) =
     (limit \<le> int (length (filter (\<lambda>s. fs t s < 3600) (recorded m u))))"
  by (simp add: is_rate_limited_def recorded_def Let_def)

lemma is_rate_limited_recorded:
  "recorded (snd (is_rate_limited fs limit t m u)) u =
     (if limit \<le> int (length (filter (\<lambda>s. fs t s < 3600) (recorded m u)))
      then filter (\<lambda>s. fs t s < 3600) (recorded m u)
      else filter (\<lambda>s. fs t s < 3600) (recorded m u) @ [t])"
  by (simp add: is_rate_limited_def recorded_def Let_def)

lemma is_rate_limited_other:
  "v \<noteq> u \<Longrightarrow> recorded (snd (is_rate_limited fs limit t m u)) v = recorded m v"
  by (simp add: is_rate_limited_def recorded_def Let_def)

lemma within_window_append:
  "within_window fs (xs @ ys) \<longleftrightarrow>
     within_window fs xs \<and> within_window fs ys \<and>
     (\<forall>x\<in>set xs. \<forall>y\<in>set ys. fs y x < 3600)"
  by (induction xs) (auto simp: list_all_iff)

lemma filter_all: "list_all P xs \<Longrightarrow> filter P xs = xs"
  by (simp add: list_all_iff)

lemma admitted_run:
  assumes "recorded m u = pre" and "within_window fs (pre @ ts)"
    and "int (length pre) + int (length ts) \<le> limit"
  shows "fst (run_calls fs limit m (map (Pair u) ts)) = replicate (length ts) False \<and>
         recorded (snd (run_calls fs limit m (map (Pair u) ts))) u = pre @ ts"
  using assms
proof (induction ts arbitrary: m pre)
  case Nil
  then show ?case by simp
next
  case (Cons t ts)
  from Cons.prems(2) have keep: "filter (\<lambda>s. fs t s < 3600) pre = pre"
    by (auto simp: within_window_append intro: filter_all simp: list_all_iff)
  from Cons.prems(3) have room: "\<not> limit \<le> int (length pre)"
    by simp
  have f: "fst (is_rate_limited fs limit t m u) = False"
    by (simp add: is_rate_limited_fst Cons.prems(1) keep room)
  have r: "recorded (snd (is_rate_limited fs limit t m u)) u = pre @ [t]"
    by (simp add: is_rate_limited_recorded Cons.prems(1) keep room)
  have w: "within_window fs ((pre @ [t]) @ ts)"
    using Cons.prems(2) by simp
  have l: "int (length (pre @ [t])) + int (length ts) \<le> limit"
    using Cons.prems(3) by simp
  from Cons.IH [OF r w l] f show ?case
    by (simp add: split_def Let_def)
qed

text \<open>
  Claim C6. A user starts with no recorded timestamps, and the limit is \<open>N\<close>. \<open>N\<close> checks
  at times \<open>ts\<close> that lie, with the time \<open>t\<close> of the next check, within one window
  are all admitted and recorded; the check at \<open>t\<close>, number \<open>N + 1\<close>, is rejected and
  leaves the recorded sequence as it was; and a check at a time \<open>t'\<close> that is past the
  window of one of the recorded admissions (so in particular of all of them) is admitted
  again. The window is measured by the code's own float subtraction \<open>fs\<close>, whatever its
  rounding. With \<open>N = 0\<close> nothing is ever recorded, there is no window to leave, and the
  last part says nothing: every check is then rejected.
\<close>

theorem sliding_window_admission:
  assumes "recorded m user_id = []"
    and "within_window fs (ts @ [t])"
    and "limit = int (length ts)"
  shows "fst (run_calls fs limit m (map (Pair user_id) ts)) = replicate (length ts) False \<and>
     recorded (snd (run_calls fs limit m (map (Pair user_id) ts))) user_id = ts \<and>
     fst (is_rate_limited fs limit t
            (snd (run_calls fs limit m (map (Pair user_id) ts))) user_id) \<and>
     recorded (snd (is_rate_limited fs limit t
                      (snd (run_calls fs limit m (map (Pair user_id) ts))) user_id))
        user_id = ts \<and>
     ((\<exists>s\<in>set ts. 3600 \<le> fs t' s) \<longrightarrow>
        \<not> fst (is_rate_limited fs limit t'
                (snd (is_rate_limited fs limit t
                        (snd (run_calls fs limit m (map (Pair user_id) ts))) user_id))
                user_id))"
proof -
  let ?m' = "snd (run_calls fs limit m (map (Pair user_id) ts))"
  let ?m'' = "snd (is_rate_limited fs limit t ?m' user_id)"
  from assms(2) have w: "within_window fs ([] @ ts)"
    by (simp add: within_window_append)
  have l: "int (length ([] :: real list)) + int (length ts) \<le> limit"
    using assms(3) by simp
  from admitted_run [OF assms(1) w l]
  have a: "fst (run_calls fs limit m (map (Pair user_id) ts)) = replicate (length ts) False"
    and r: "recorded ?m' user_id = ts"
    by simp_all
  from assms(2) have keep: "filter (\<lambda>s. fs t s < 3600) ts = ts"
    by (auto simp: within_window_append intro: filter_all simp: list_all_iff)
  have "fst (is_rate_limited fs limit t ?m' user_id) = (limit \<le> int (length ts))"
    by (simp only: is_rate_limited_fst r keep)
  with assms(3) have rej: "fst (is_rate_limited fs limit t ?m' user_id)"
    by simp
  have "recorded ?m'' user_id = (if limit \<le> int (length ts) then ts else ts @ [t])"
    by (simp only: is_rate_limited_recorded r keep)
  with assms(3) have same: "recorded ?m'' user_id = ts"
    by simp
  have later: "\<not> fst (is_rate_limited fs limit t' ?m'' user_id)"
    if "\<exists>s\<in>set ts. 3600 \<le> fs t' s"
  proof -
    from that obtain s where "s \<in> set ts" and "\<not> fs t' s < 3600"
      by auto
    then have "length (filter (\<lambda>s. fs t' s < 3600) ts) < length ts"
      by (rule length_filter_less)
    moreover have "fst (is_rate_limited fs limit t' ?m'' user_id) =
        (limit \<le> int (length (filter (\<lambda>s. fs t' s < 3600) ts)))"
      by (simp only: is_rate_limited_fst same)
    ultimately show ?thesis
      using assms(3) by simp
  qed
  from a r rej same later show ?thesis
    by blast
qed

theorem sliding_window_admission_witness:
  "recorded Map.empty ''u'' = [] \<and>
   within_window whole_seconds_sub ([0, 10, 20] @ [30]) \<and>
   (3 :: int) = int (length [0, 10, 20 :: real]) \<and>
   fst (run_calls whole_seconds_sub 3 Map.empty (map (Pair ''u'') [0, 10, 20])) =
     [False, False, False] \<and>
   recorded (snd (run_calls whole_seconds_sub 3 Map.empty (map (Pair ''u'') [0, 10, 20])))
     ''u'' = [0, 10, 20] \<and>
   fst (is_rate_limited whole_seconds_sub 3 30
          (snd (run_calls whole_seconds_sub 3 Map.empty (map (Pair ''u'') [0, 10, 20])))
          ''u'') \<and>
   recorded (snd (is_rate_limited whole_seconds_sub 3 30
                (snd (run_calls whole_seconds_sub 3 Map.empty (map (Pair ''u'') [0, 10, 20])))
                ''u'')) ''u''
     = [0, 10, 20] \<and>
   (\<exists>s\<in>set [0, 10, 20 :: real]. 3600 \<le> whole_seconds_sub 3605 s) \<and>
   \<not> fst (is_rate_limited whole_seconds_sub 3 3605
           (snd (is_rate_limited whole_seconds_sub 3 30
                   (snd (run_calls whole_seconds_sub 3 Map.empty
                           (map (Pair ''u'') [0, 10, 20])))
                   ''u'')) ''u'')"
proof -
  have h1: "recorded Map.empty ''u'' = []"
    by (simp add: recorded_def)
  have h2: "within_window whole_seconds_sub ([0, 10, 20] @ [30])"
    by (simp add: whole_seconds_sub_def)
  have h3: "(3 :: int) = int (length [0, 10, 20 :: real])"
    by simp
  have h4: "\<exists>s\<in>set [0, 10, 20 :: real]. 3600 \<le> whole_seconds_sub 3605 s"
    by (simp add: whole_seconds_sub_def)
  have h5: "replicate (length [0, 10, 20 :: real]) False = [False, False, False]"
    by simp
  note th = sliding_window_admission [OF h1 h2 h3, of 3605, unfolded h5]
  from th h4 have
    "\<not> fst (is_rate_limited whole_seconds_sub 3 3605
           (snd (is_rate_limited whole_seconds_sub 3 30
                   (snd (run_calls whole_seconds_sub 3 Map.empty
                           (map (Pair ''u'') [0, 10, 20])))
                   ''u'')) ''u'')"
    by blast
  with th h1 h2 h3 h4 show ?thesis
    by blast
qed

text \<open>
  Rounding at the edge of the window. With the clock at 0.1 and then at 3600.1, the exact
  difference of the two floats is below 3600, but the binary64 subtraction gives exactly
  3600.0. The second time is then not within the window as the code measures it: the
  recorded entry is evicted and, with limit 1, the check is admitted.
\<close>

lemma rounded_difference_leaves_window:
  assumes "fs t1 t0 = 3600" and "recorded m u = [t0]"
  shows "\<not> within_window fs ([t0] @ [t1]) \<and> \<not> fst (is_rate_limited fs 1 t1 m u)"
  using assms by (simp add: is_rate_limited_fst)

lemma is_rate_limited_bound:
  assumes "0 \<le> limit" and "int (length (recorded m v)) \<le> limit"
  shows "int (length (recorded (snd (is_rate_limited fs limit t m u)) v)) \<le> limit"
proof (cases "v = u")
  case True
  have "int (length (filter (\<lambda>s. fs t s < 3600) (recorded m u))) \<le>
      int (length (recorded m u))"
    by simp
  also have "\<dots> \<le> limit"
    using assms(2) True by simp
  finally have "int (length (filter (\<lambda>s. fs t s < 3600) (recorded m u))) \<le> limit" .
  with True show ?thesis
    by (auto simp: is_rate_limited_recorded)
next
  case False
  with assms(2) show ?thesis
    by (simp add: is_rate_limited_other)
qed

lemma run_calls_bound:
  assumes "0 \<le> limit" and "int (length (recorded m v)) \<le> limit"
  shows "int (length (recorded (snd (run_calls fs limit m calls)) v)) \<le> limit"
  using assms(2)
proof (induction calls arbitrary: m)
  case Nil
  then show ?case by simp
next
  case (Cons c calls)
  obtain u t where c: "c = (u, t)" by (cases c)
  from is_rate_limited_bound [OF assms(1) Cons.prems]
  have "int (length (recorded (snd (is_rate_limited fs limit t m u)) v)) \<le> limit" .
  from Cons.IH [OF this] show ?case
    by (simp add: c split_def Let_def)
qed

text \<open>
  Claim C10. Starting from the empty dictionary of the freshly loaded module, after any
  sequence of calls of \<^verbatim>\<open>is_rate_limited\<close>, for any users and at any times, the list
  recorded for a user has at most \<^verbatim>\<open>DEFAULT_RATE_LIMIT_PER_HOUR\<close> entries, whatever the
  float subtraction rounds to. The limit is taken non-negative, as a number of messages
  per hour is; with a negative limit every call is rejected and every list stays empty.
\<close>

theorem stored_timestamps_bounded:
  assumes "0 \<le> limit"
  shows "int (length (recorded (snd (run_calls fs limit Map.empty calls)) user_id)) \<le> limit"
proof -
  have "int (length (recorded Map.empty user_id)) \<le> limit"
    using assms by (simp add: recorded_def)
  from run_calls_bound [OF assms this] show ?thesis .
qed

theorem stored_timestamps_bounded_witness:
  "(0 :: int) \<le> 2 \<and>
   int (length (recorded
     (snd (run_calls whole_seconds_sub 2 Map.empty
             [(''u'', 0), (''u'', 1), (''v'', 2), (''u'', 3), (''u'', 4000)]))
     ''u'')) \<le> 2"
proof -
  have h: "(0 :: int) \<le> 2"
    by simp
  from h stored_timestamps_bounded
         [OF h, of whole_seconds_sub
            "[(''u'', 0), (''u'', 1), (''v'', 2), (''u'', 3), (''u'', 4000)]" "''u''"]
  show ?thesis
    by (rule conjI)
qed

end
